theory Spec2Isabelle
  imports Main "HOL-Library.AList" "HOL-Library.Sublist"
begin

section \<open>JavaScript values\<close>

text \<open>
  The values that flow through \<^verbatim>\<open>AgTable.tsx\<close> are JSON documents (the serialized
  definition, the filter model), host objects of the grid (its API, a row node) and callbacks.
  An object is an association list in insertion order whose keys are distinct; a host object
  or a function is known by its reference only. Numbers are modelled as integers, which is
  what the grid sends as row indices.
\<close>

datatype jsval =
    Undefined
  | Null
  | Bool bool
  | Num int
  | Str string
  | Arr "jsval list"
  | Obj "(string \<times> jsval) list"
  | Fun nat
  | Host nat

type_synonym object = "(string \<times> jsval) list"

text \<open>JavaScript truthiness, as tested by \<^verbatim>\<open>!x\<close>, \<^verbatim>\<open>x && y\<close> and \<^verbatim>\<open>x || y\<close>.\<close>

fun truthy :: "jsval \<Rightarrow> bool" where
  "truthy Undefined = False"
| "truthy Null = False"
| "truthy (Bool b) = b"
| "truthy (Num n) = (n \<noteq> 0)"
| "truthy (Str s) = (s \<noteq> [])"
| "truthy (Arr xs) = True"
| "truthy (Obj kvs) = True"
| "truthy (Fun f) = True"
| "truthy (Host h) = True"

text \<open>
  Object spread \<^verbatim>\<open>{ ...a, ...b }\<close> and \<^verbatim>\<open>Object.fromEntries\<close>: the entries are
  written one after the other, a later entry replacing the value of an earlier one with
  the same key.
\<close>

definition assign :: "object \<Rightarrow> object \<Rightarrow> object" where
  "assign target source = foldl (\<lambda>obj (k, v). AList.update k v obj) target source"

definition fromEntries :: "(string \<times> jsval) list \<Rightarrow> object" where
  "fromEntries entries = assign [] entries"

section \<open>Strings and numbers\<close>

definition digit_char :: "nat \<Rightarrow> char" where
  "digit_char d = ''0123456789'' ! d"

text \<open>\<^verbatim>\<open>Number.prototype.toString\<close> on an integer: its decimal numeral.\<close>

fun toString_nat :: "nat \<Rightarrow> string" where
  "toString_nat n =
     (if n < 10 then [digit_char n]
      else toString_nat (n div 10) @ [digit_char (n mod 10)])"

declare toString_nat.simps [simp del]

definition toString :: "int \<Rightarrow> string" where
  "toString i = (if i < 0 then CHR ''-'' # toString_nat (nat (- i)) else toString_nat (nat i))"

text \<open>\<^verbatim>\<open>toUpperCase\<close> on the letters of ASCII; every other character of the model is kept.\<close>

definition toUpperCase_char :: "char \<Rightarrow> char" where
  "toUpperCase_char c =
     (case map_of (zip ''abcdefghijklmnopqrstuvwxyz'' ''ABCDEFGHIJKLMNOPQRSTUVWXYZ'') c of
        Some u \<Rightarrow> u
      | None \<Rightarrow> c)"

definition toUpperCase :: "string \<Rightarrow> string" where
  "toUpperCase s = map toUpperCase_char s"

text \<open>
  \<^verbatim>\<open>s.split(sep)\<close> for a one-character separator: every occurrence of the separator
  ends a segment. The result is never empty, so it is the first segment and the list of
  the segments after it.
\<close>

fun split_on :: "char \<Rightarrow> string \<Rightarrow> string \<times> string list" where
  "split_on sep [] = ([], [])"
| "split_on sep (c # cs) =
     (let (seg, segs) = split_on sep cs
      in if c = sep then ([], seg # segs) else (c # seg, segs))"

section \<open>Row-request translator: \<^verbatim>\<open>parseSort\<close>\<close>

record FilterVal =
  type :: string
  filter_str :: string

record SortModelItem =
  colId :: string
  sort_dir :: string

record IServerSideGetRowsRequest =
  startRow :: "int option"
  endRow :: "int option"
  filterModel :: "(string \<times> FilterVal) list option"
  sortModel :: "SortModelItem list option"

record IServerSideGetRowsParams =
  request :: IServerSideGetRowsRequest

record ParsedRequest =
  filter_obj :: object
  limit :: int
  offset :: int
  orderBy :: jsval

text \<open>The callback of \<^verbatim>\<open>Object.entries(filterModel).map\<close> (lines 75 to 96).\<close>

definition filter_entry :: "string \<times> FilterVal \<Rightarrow> string \<times> jsval" where
  "filter_entry = (\<lambda>(key, filterVal).
     let operator = ''$eq'';
         operator = (if type filterVal = ''contains''
                     then (if key \<noteq> ''id'' then ''$iLike'' else operator)
                     else operator);
         operator = (if type filterVal = ''notContains''
                     then (if key \<noteq> ''id'' then ''$notILike'' else operator)
                     else operator)
     in (key,
         if operator = ''$eq'' then Str (filter_str filterVal)
         else Obj [(operator, Str (''%'' @ filter_str filterVal @ ''%''))]))"

text \<open>The order-by value built from the chosen sort entry (lines 99 to 114).\<close>

definition order_by :: "SortModelItem \<Rightarrow> jsval" where
  "order_by srt =
     (let orderBy = Arr [Arr [Str (colId srt), Str (sort_dir srt)]]
      in if CHR ''.'' \<in> set (colId srt) then
           (let (modelName, rest) = split_on CHR ''.'' (colId srt);
                columnName = (case rest of [] \<Rightarrow> Undefined | c # _ \<Rightarrow> Str c);
                model = toUpperCase (take 1 modelName) @ drop 1 modelName
            in Arr [Arr [Obj [(''model'', Str model), (''as'', Str modelName)],
                         columnName, Str (sort_dir srt)]])
         else orderBy)"

definition parseSort :: "IServerSideGetRowsParams \<Rightarrow> ParsedRequest" where
  "parseSort params =
     (let startRow' = (case startRow (request params) of None \<Rightarrow> 0 | Some n \<Rightarrow> n);
          endRow' = (case endRow (request params) of None \<Rightarrow> 0 | Some n \<Rightarrow> n);
          filterModel' = (case filterModel (request params) of None \<Rightarrow> [] | Some fm \<Rightarrow> fm);
          limit' = endRow' - startRow';
          srt = (case sortModel (request params) of
                   Some (s # _) \<Rightarrow> s
                 | _ \<Rightarrow> \<lparr>colId = ''createdAt'', sort_dir = ''desc''\<rparr>);
          filter' = fromEntries (map filter_entry filterModel')
      in \<lparr>filter_obj = filter', limit = limit', offset = startRow', orderBy = order_by srt\<rparr>)"

section \<open>Data-page pull: the query of \<^verbatim>\<open>getRows\<close>\<close>

record TableHttpSpec =
  url :: string
  params :: "object option"



section \<open>The \<^verbatim>\<open>date\<close> filter of \<^verbatim>\<open>expressions.ts\<close>\<close>

text \<open>
  A valid \<^verbatim>\<open>Date\<close> is known by what its local-time getters return. Parsing belongs to
  the runtime: \<^verbatim>\<open>new Date(input)\<close> is a parameter that yields \<open>None\<close> for a date whose
  \<^verbatim>\<open>getTime()\<close> is \<^verbatim>\<open>NaN\<close>.
\<close>

record Date =
  getFullYear :: int
  getMonth :: nat
  getDate :: nat
  getHours :: nat
  getMinutes :: nat
  getSeconds :: nat

text \<open>
  \<^verbatim>\<open>s.replace(pat, rep)\<close> with a string pattern: the first occurrence of the pattern is
  replaced, the rest of the string is kept. The replacements of \<^verbatim>\<open>formatDate\<close> are
  numerals and \<^verbatim>\<open>AM\<close>/\<^verbatim>\<open>PM\<close>, which hold no \<^verbatim>\<open>$\<close> pattern.
\<close>

fun replace :: "string \<Rightarrow> string \<Rightarrow> string \<Rightarrow> string" where
  "replace pat rep [] = (if pat = [] then rep else [])"
| "replace pat rep (c # cs) =
     (if prefix pat (c # cs) then rep @ drop (length pat) (c # cs)
      else c # replace pat rep cs)"

definition padStart :: "nat \<Rightarrow> char \<Rightarrow> string \<Rightarrow> string" where
  "padStart n c s = replicate (n - length s) c @ s"

definition pad :: "nat \<Rightarrow> string" where
  "pad n = padStart 2 CHR ''0'' (toString (int n))"

definition formatDate :: "Date \<Rightarrow> string \<Rightarrow> string" where
  "formatDate date format =
     (let hours = getHours date;
          hours12 = (if hours mod 12 = 0 then 12 else hours mod 12);
          ampm = (if hours \<ge> 12 then ''PM'' else ''AM'');
          s = replace ''YYYY'' (toString (getFullYear date)) format;
          s = replace ''MM'' (pad (getMonth date + 1)) s;
          s = replace ''DD'' (pad (getDate date)) s;
          s = replace ''hh'' (pad hours12) s;
          s = replace ''HH'' (pad hours) s;
          s = replace ''mm'' (pad (getMinutes date)) s;
          s = replace ''ss'' (pad (getSeconds date)) s
      in replace ''A'' ampm s)"

definition filters_date :: "(string \<Rightarrow> Date option) \<Rightarrow> jsval \<Rightarrow> string option \<Rightarrow> jsval" where
  "filters_date newDate input opts =
     (case input of
        Str s \<Rightarrow>
          if truthy input \<and> s \<noteq> [] then
            (case newDate s of
               Some date \<Rightarrow>
                 (let format = (case opts of
                                  None \<Rightarrow> ''MM/DD/YYYY hh:mm:ss A''
                                | Some f \<Rightarrow> if f \<noteq> [] then f else ''MM/DD/YYYY hh:mm:ss A'')
                  in Str (formatDate date format))
             | None \<Rightarrow> input)
          else (if truthy input then input else Str [])
      | _ \<Rightarrow> (if truthy input then input else Str []))"

section \<open>Hydration: \<^verbatim>\<open>fromSerializedToColumnDef\<close>\<close>

text \<open>
  The expression library \<^verbatim>\<open>angular-expressions\<close> is a dependency: \<^verbatim>\<open>compile\<close> is a
  parameter. It either raises or gives a function. That function is handed the scope object
  of the call, which it may change (an assignment in an expression writes to the scope), and
  it works in the state of the host, of type \<open>'w\<close>, which it may change as well (a method
  of the grid API called from an expression). It either raises or gives a value, and it leaves
  the scope and the host state as the next expression finds them.
\<close>

datatype error = Thrown string

type_synonym 'w compiled = "object \<Rightarrow> 'w \<Rightarrow> (error + jsval) \<times> object \<times> 'w"
type_synonym 'w compiler = "string \<Rightarrow> error + 'w compiled"

record ValueFormatterParams =
  api :: jsval
  colDef :: jsval
  node :: jsval
  value_p :: jsval
  data :: jsval
  column :: jsval
  context_p :: jsval

type_synonym CellRendererAction = nat

text \<open>
  A serialized column: \<open>cellRenderer\<close> is \<open>None\<close> when the column has no such key,
  \<open>valueFormatter\<close> is \<open>None\<close> when it is absent, and \<open>rest\<close> holds every other
  key of the column.
\<close>

record SerializedColumnDef =
  cellRenderer :: "jsval option"
  cellRendererParams :: jsval
  valueFormatter :: "string list option"
  rest :: object

datatype 'w formatter =
    Expressions "string list option"
  | Closure "ValueFormatterParams \<Rightarrow> 'w \<Rightarrow> (error + jsval) \<times> 'w"

record 'w ColDef =
  col_cellRenderer :: "jsval option"
  col_cellRendererParams :: jsval
  col_valueFormatter :: "'w formatter"
  col_rest :: object

text \<open>The scope object that the formatter builds from its parameters (lines 152 to 157).\<close>

definition scope :: "ValueFormatterParams \<Rightarrow> object" where
  "scope ps =
     [(''api'', api ps), (''colDef'', colDef ps), (''node'', node ps), (''value'', value_p ps)]"

text \<open>
  The loop of the formatter (lines 159 to 164): \<open>result\<close> is the loop variable, every
  \<^verbatim>\<open>exec(scope)\<close> is handed the same scope object, as the expressions before it left it,
  and an expression that raises, when compiled or when run, ends the loop with that error.
\<close>

fun evaluate_all ::
  "'w compiler \<Rightarrow> string list \<Rightarrow> jsval \<Rightarrow> object \<Rightarrow> 'w \<Rightarrow> (error + jsval) \<times> object \<times> 'w" where
  "evaluate_all compile [] result sc w = (Inr result, sc, w)"
| "evaluate_all compile (exp # exps) result sc w =
     (case compile exp of
        Inl err \<Rightarrow> (Inl err, sc, w)
      | Inr exec \<Rightarrow>
          (case exec sc w of
             (Inl err, sc', w') \<Rightarrow> (Inl err, sc', w')
           | (Inr v, sc', w') \<Rightarrow> evaluate_all compile exps v sc' w'))"

text \<open>
  The formatter of a hydrated column: it builds the scope, runs the loop and returns its
  result; the scope object is dropped, the host state stays as the expressions left it.
\<close>

definition hydrated_valueFormatter ::
  "'w compiler \<Rightarrow> string list \<Rightarrow> ValueFormatterParams \<Rightarrow> 'w \<Rightarrow> (error + jsval) \<times> 'w" where
  "hydrated_valueFormatter compile vf ps w =
     (case evaluate_all compile vf Undefined (scope ps) w of (r, sc, w') \<Rightarrow> (r, w'))"

text \<open>The own enumerable entries of a value, as an object spread copies them.\<close>

fun own_entries :: "jsval \<Rightarrow> object" where
  "own_entries (Obj kvs) = kvs"
| "own_entries (Arr xs) = zip (map toString_nat [0..<length xs]) xs"
| "own_entries (Str s) = zip (map toString_nat [0..<length s]) (map (\<lambda>c. Str [c]) s)"
| "own_entries v = []"

text \<open>
  The callback of \<^verbatim>\<open>serialized.map\<close> (lines 131 to 171). It assigns to a field of its
  argument, so it returns the argument as the call leaves it together with the column it
  returns. A column without a formatter list is returned as the same object.
\<close>

definition inject_action :: "CellRendererAction option \<Rightarrow> SerializedColumnDef \<Rightarrow> SerializedColumnDef" where
  "inject_action cellRendererAction c =
     (case cellRendererAction of
        Some action \<Rightarrow>
          if cellRenderer c \<noteq> None \<and> truthy (cellRendererParams c) then
            c\<lparr>cellRendererParams :=
                Obj (assign (assign [] (own_entries (cellRendererParams c)))
                            [(''onAction'', Fun action)])\<rparr>
          else c
      | None \<Rightarrow> c)"

definition hydrate_column ::
  "'w compiler \<Rightarrow> CellRendererAction option \<Rightarrow> SerializedColumnDef \<Rightarrow>
   SerializedColumnDef \<times> 'w ColDef" where
  "hydrate_column compile cellRendererAction c0 =
     (let c = inject_action cellRendererAction c0;
          unchanged = \<lparr>col_cellRenderer = cellRenderer c,
                       col_cellRendererParams = cellRendererParams c,
                       col_valueFormatter = Expressions (valueFormatter c),
                       col_rest = rest c\<rparr>
      in case valueFormatter c of
           None \<Rightarrow> (c, unchanged)
         | Some [] \<Rightarrow> (c, unchanged)
         | Some vf \<Rightarrow>
             (c, \<lparr>col_cellRenderer = cellRenderer c,
                  col_cellRendererParams = cellRendererParams c,
                  col_valueFormatter = Closure (hydrated_valueFormatter compile vf),
                  col_rest = rest c\<rparr>))"

definition fromSerializedToColumnDef ::
  "'w compiler \<Rightarrow> SerializedColumnDef list \<Rightarrow> CellRendererAction option \<Rightarrow>
   SerializedColumnDef list \<times> 'w ColDef list" where
  "fromSerializedToColumnDef compile serialized cellRendererAction =
     (map (\<lambda>c. fst (hydrate_column compile cellRendererAction c)) serialized,
      map (\<lambda>c. snd (hydrate_column compile cellRendererAction c)) serialized)"

section \<open>Notions used to state the properties\<close>

text \<open>
  What one expression of a formatter list gives by itself on a scope and a host state:
  \<^verbatim>\<open>expressions.compile(exp)(scope)\<close>, an error if either call raises, with the scope and
  the host state after it.
\<close>

definition expression_value ::
  "'w compiler \<Rightarrow> string \<Rightarrow> object \<Rightarrow> 'w \<Rightarrow> (error + jsval) \<times> object \<times> 'w" where
  "expression_value compile exp sc w =
     (case compile exp of Inl err \<Rightarrow> (Inl err, sc, w) | Inr exec \<Rightarrow> exec sc w)"

text \<open>
  The scope and the host state that a list of expressions leaves behind when each of them
  gives a value, and \<open>None\<close> when one of them raises. The values themselves are dropped:
  an expression acts on the next ones only through what it wrote.
\<close>

fun effects_of :: "'w compiler \<Rightarrow> string list \<Rightarrow> object \<Rightarrow> 'w \<Rightarrow> (object \<times> 'w) option" where
  "effects_of compile [] sc w = Some (sc, w)"
| "effects_of compile (exp # exps) sc w =
     (case expression_value compile exp sc w of
        (Inl err, sc', w') \<Rightarrow> None
      | (Inr v, sc', w') \<Rightarrow> effects_of compile exps sc' w')"

text \<open>
  The engine on the expressions of the examples, with a host that has no state of its own.
  \<^verbatim>\<open>(\<close> does not compile. One of the identifiers \<^verbatim>\<open>api\<close>, \<^verbatim>\<open>colDef\<close>,
  \<^verbatim>\<open>node\<close>, \<^verbatim>\<open>value\<close>, \<^verbatim>\<open>moment\<close> gives that slot of the scope, and
  \<^verbatim>\<open>undefined\<close> when the scope has no such slot. \<^verbatim>\<open>value = 5\<close> writes 5 to the slot
  \<^verbatim>\<open>value\<close> of the scope and gives 5. \<^verbatim>\<open>api.f()\<close> calls the function that the object
  in the slot \<^verbatim>\<open>api\<close> holds under \<^verbatim>\<open>f\<close>, and gives \<^verbatim>\<open>undefined\<close> when there is none;
  of the host functions, function 0 throws. No example uses any other source, and the
  last branch only makes the function total.
\<close>

definition sample_call :: "nat \<Rightarrow> error + jsval" where
  "sample_call f = (if f = 0 then Inl (Thrown ''f failed'') else Inr Undefined)"

definition sample_compile :: "unit compiler" where
  "sample_compile src =
     (if src = ''('' then Inl (Thrown ''Unexpected end of expression'')
      else if src \<in> set [''api'', ''colDef'', ''node'', ''value'', ''moment''] then
        Inr (\<lambda>sc w. (Inr (case map_of sc src of Some v \<Rightarrow> v | None \<Rightarrow> Undefined), sc, w))
      else if src = ''value = 5'' then
        Inr (\<lambda>sc w. (Inr (Num 5), AList.update ''value'' (Num 5) sc, w))
      else if src = ''api.f()'' then
        Inr (\<lambda>sc w.
          case map_of sc ''api'' of
            Some (Obj members) \<Rightarrow>
              (case map_of members ''f'' of
                 Some (Fun f) \<Rightarrow> (sample_call f, sc, w)
               | _ \<Rightarrow> (Inr Undefined, sc, w))
          | _ \<Rightarrow> (Inr Undefined, sc, w))
      else Inl (Thrown ''not an expression of the examples''))"


text \<open>Formatter parameters whose grid API is an object with a method \<^verbatim>\<open>f\<close> that throws.\<close>

definition throwing_params :: ValueFormatterParams where
  "throwing_params =
     \<lparr>api = Obj [(''f'', Fun 0)], colDef = Host 1, node = Host 2, value_p = Str ''raw'',
      data = Obj [(''name'', Str ''raw'')], column = Host 3, context_p = Undefined\<rparr>"

text \<open>
  The order-by entry as the specification words it: a dotted column id is split on its
  first dot into the relation name and the field name.
\<close>

definition split_first_dot :: "string \<Rightarrow> string \<times> string" where
  "split_first_dot s =
     (takeWhile (\<lambda>c. c \<noteq> CHR ''.'') s, drop 1 (dropWhile (\<lambda>c. c \<noteq> CHR ''.'') s))"

definition order_by_first_dot :: "SortModelItem \<Rightarrow> jsval" where
  "order_by_first_dot srt =
     (if CHR ''.'' \<in> set (colId srt) then
        (let (relation, field) = split_first_dot (colId srt);
             model = toUpperCase (take 1 relation) @ drop 1 relation
         in Arr [Arr [Obj [(''model'', Str model), (''as'', Str relation)],
                      Str field, Str (sort_dir srt)]])
      else Arr [Arr [Str (colId srt), Str (sort_dir srt)]])"

text \<open>The characters of a decimal numeral.\<close>

definition numeral_char :: "char \<Rightarrow> bool" where
  "numeral_char c \<longleftrightarrow> c \<in> set ''-0123456789''"

section \<open>Objects and strings: auxiliary facts\<close>

lemma map_of_assign:
  "map_of (assign target source) k =
     (case map_of (rev source) k of Some v \<Rightarrow> Some v | None \<Rightarrow> map_of target k)"
  unfolding assign_def
proof (induction source arbitrary: target)
  case Nil
  show ?case by simp
next
  case (Cons e es)
  obtain k' v' where e: "e = (k', v')" by (cases e)
  show ?case
    by (simp add: Cons.IH e update_conv' map_add_def split: option.splits)
qed

lemma map_of_rev_distinct: "distinct (map fst xs) \<Longrightarrow> map_of (rev xs) = map_of xs"
proof -
  assume d: "distinct (map fst xs)"
  then have "distinct (map fst (rev xs))" by (simp add: rev_map [symmetric])
  then show ?thesis using d by (simp add: map_of_inject_set)
qed

lemma map_of_assign_distinct:
  "distinct (map fst source) \<Longrightarrow>
   map_of (assign target source) k =
     (case map_of source k of Some v \<Rightarrow> Some v | None \<Rightarrow> map_of target k)"
  by (simp add: map_of_assign map_of_rev_distinct)





lemma split_on_fst: "fst (split_on sep s) = takeWhile (\<lambda>c. c \<noteq> sep) s"
  by (induction s) (auto simp: Let_def split: prod.splits)

lemma split_on_snd:
  "sep \<in> set s \<Longrightarrow>
   snd (split_on sep s) =
     fst (split_on sep (drop 1 (dropWhile (\<lambda>c. c \<noteq> sep) s))) #
     snd (split_on sep (drop 1 (dropWhile (\<lambda>c. c \<noteq> sep) s)))"
  by (induction s) (auto simp: Let_def split: prod.splits)

lemma count_after_first:
  "sep \<in> set s \<Longrightarrow>
   count_list s sep = Suc (count_list (drop 1 (dropWhile (\<lambda>c. c \<noteq> sep) s)) sep)"
  by (induction s) auto

lemma no_dot_takeWhile:
  "CHR ''.'' \<notin> set xs \<Longrightarrow> takeWhile (\<lambda>c. c \<noteq> CHR ''.'') xs = xs"
  by (induction xs) auto

lemma numeral_digit_char: "d < 10 \<Longrightarrow> numeral_char (digit_char d)"
proof -
  assume "d < 10"
  then have "''0123456789'' ! d \<in> set ''0123456789''" by (intro nth_mem) simp
  then show ?thesis unfolding numeral_char_def digit_char_def by simp
qed

lemma numeral_toString_nat: "\<forall>c\<in>set (toString_nat n). numeral_char c"
proof (induction n rule: toString_nat.induct)
  case (1 n)
  show ?case
  proof (cases "n < 10")
    case True
    then show ?thesis
      by (subst toString_nat.simps) (simp add: numeral_digit_char)
  next
    case False
    then show ?thesis
      using "1.IH" by (subst toString_nat.simps) (simp add: numeral_digit_char)
  qed
qed

lemma numeral_toString: "\<forall>c\<in>set (toString i). numeral_char c"
proof -
  have "numeral_char CHR ''-''" by (simp add: numeral_char_def)
  then show ?thesis by (simp add: toString_def numeral_toString_nat)
qed

lemma numeral_pad: "\<forall>c\<in>set (pad n). numeral_char c"
proof -
  have "numeral_char CHR ''0''" by (simp add: numeral_char_def)
  then show ?thesis
    using numeral_toString [of "int n"] by (auto simp: pad_def padStart_def)
qed

lemma replace_skip:
  "\<not> numeral_char p \<Longrightarrow> \<forall>c\<in>set ds. numeral_char c \<Longrightarrow>
   replace (p # ps) rep (ds @ tail) = ds @ replace (p # ps) rep tail"
  by (induction ds) auto

lemma toString_nat_length: "n < 10 \<Longrightarrow> length (toString_nat n) = 1"
  by (subst toString_nat.simps) simp

lemma pad_length: "n < 100 \<Longrightarrow> length (pad n) = 2"
proof (cases "n < 10")
  case True
  then show ?thesis by (simp add: pad_def padStart_def toString_def toString_nat_length)
next
  case False
  assume "n < 100"
  then have "n div 10 < 10" by simp
  then have "length (toString_nat (n div 10)) = 1" by (rule toString_nat_length)
  then have "length (toString_nat n) = 2"
    using False by (subst toString_nat.simps) simp
  then show ?thesis by (simp add: pad_def padStart_def toString_def)
qed

section \<open>The hydrated formatter\<close>


lemma evaluate_all_result_irrelevant:
  "exps \<noteq> [] \<Longrightarrow> evaluate_all compile exps r sc w = evaluate_all compile exps r' sc w"
  by (cases exps) (simp_all split: sum.splits prod.splits)

lemma evaluate_all_after_effects:
  "effects_of compile pre sc w = Some (sc', w') \<Longrightarrow> exps \<noteq> [] \<Longrightarrow>
   evaluate_all compile (pre @ exps) r sc w = evaluate_all compile exps r' sc' w'"
proof (induction pre arbitrary: r sc w)
  case Nil
  then show ?case by (simp add: evaluate_all_result_irrelevant [where r = r and r' = r'])
next
  case (Cons x pre)
  from Cons.prems(1) obtain v sc1 w1 where
    x: "expression_value compile x sc w = (Inr v, sc1, w1)"
    and tail: "effects_of compile pre sc1 w1 = Some (sc', w')"
    by (auto split: prod.splits sum.splits)
  from x obtain exec where e: "compile x = Inr exec" "exec sc w = (Inr v, sc1, w1)"
    by (auto simp: expression_value_def split: sum.splits)
  have "evaluate_all compile ((x # pre) @ exps) r sc w =
        evaluate_all compile (pre @ exps) v sc1 w1"
    by (simp add: e)
  also have "\<dots> = evaluate_all compile exps r' sc' w'"
    using tail Cons.prems(2) by (rule Cons.IH)
  finally show ?case .
qed

lemma evaluate_all_raise:
  "expression_value compile e sc w = (Inl err, sc', w') \<Longrightarrow>
   evaluate_all compile (e # post) r sc w = (Inl err, sc', w')"
  by (auto simp: expression_value_def split: sum.splits)






text \<open>
  C2, as the code has it. The formatter holds no handler: when the expressions before some
  entry give values and that entry raises on the scope and the host state that they left,
  the formatter ends with that very error, whatever follows in the list.
\<close>

theorem formatter_propagates_error:
  assumes "effects_of compile pre (scope ps) w = Some (sc', w')"
    and "expression_value compile e sc' w' = (Inl err, sc'', w'')"
  shows "hydrated_valueFormatter compile (pre @ e # post) ps w = (Inl err, w'')"
proof -
  have "evaluate_all compile (pre @ e # post) Undefined (scope ps) w =
        evaluate_all compile (e # post) Undefined sc' w'"
    using assms(1) by (rule evaluate_all_after_effects) simp
  also have "\<dots> = (Inl err, sc'', w'')"
    using assms(2) by (rule evaluate_all_raise)
  finally show ?thesis
    by (simp add: hydrated_valueFormatter_def)
qed

theorem formatter_propagates_error_witness:
  "expression_value sample_compile ''api.f()'' (scope throwing_params) () =
     (Inl (Thrown ''f failed''), scope throwing_params, ()) \<and>
   hydrated_valueFormatter sample_compile [''value'', ''api.f()'', ''node''] throwing_params () =
     (Inl (Thrown ''f failed''), ())"
proof -
  have a: "effects_of sample_compile [''value''] (scope throwing_params) () =
           Some (scope throwing_params, ())"
    by (simp add: expression_value_def sample_compile_def)
  have b: "expression_value sample_compile ''api.f()'' (scope throwing_params) () =
           (Inl (Thrown ''f failed''), scope throwing_params, ())"
    by (simp add: expression_value_def sample_compile_def sample_call_def scope_def
        throwing_params_def)
  show ?thesis
    using b formatter_propagates_error [OF a b, of "[''node'']"] by simp
qed

text \<open>
  C2 as stated fails: with a grid API whose method \<^verbatim>\<open>f\<close> throws, the expression
  \<^verbatim>\<open>api.f()\<close> raises when it is run, the formatter raises with it, and the raw cell
  value is not returned.
\<close>

theorem formatter_raw_value_fallback_counterexample:
  "fst (expression_value sample_compile ''api.f()'' (scope throwing_params) ()) =
     Inl (Thrown ''f failed'') \<and>
   value_p throwing_params = Str ''raw'' \<and>
   hydrated_valueFormatter sample_compile [''api.f()''] throwing_params () =
     (Inl (Thrown ''f failed''), ()) \<and>
   fst (hydrated_valueFormatter sample_compile [''api.f()''] throwing_params ()) \<noteq>
     Inr (value_p throwing_params)"
  by (simp add: hydrated_valueFormatter_def expression_value_def sample_compile_def
      sample_call_def throwing_params_def scope_def)

text \<open>
  C4: the scope that the formatter passes to every expression has the four slots
  \<^verbatim>\<open>api\<close>, \<^verbatim>\<open>colDef\<close>, \<^verbatim>\<open>node\<close> and \<^verbatim>\<open>value\<close> and no other. It has no
  date/time namespace: the identifier \<^verbatim>\<open>moment\<close>, which the documentation of
  \<^verbatim>\<open>SerializedColumnDef\<close> lists in the scope, reads as \<^verbatim>\<open>undefined\<close>.
\<close>

theorem scope_slots:
  "map fst (scope ps) = [''api'', ''colDef'', ''node'', ''value''] \<and>
   map_of (scope ps) ''moment'' = None \<and>
   hydrated_valueFormatter sample_compile [''moment''] ps w = (Inr Undefined, w)"
  by (simp add: scope_def hydrated_valueFormatter_def sample_compile_def)

section \<open>Hydration and its input\<close>

lemma hydrate_column_input:
  "fst (hydrate_column compile action c) = inject_action action c"
  by (simp add: hydrate_column_def Let_def split: option.splits list.splits)

lemma inject_action_fields:
  "cellRenderer (inject_action action c) = cellRenderer c \<and>
   valueFormatter (inject_action action c) = valueFormatter c \<and>
   rest (inject_action action c) = rest c"
  by (simp add: inject_action_def split: option.splits)

lemma inject_action_unchanged:
  "action = None \<or> cellRenderer c = None \<or> \<not> truthy (cellRendererParams c) \<Longrightarrow>
   inject_action action c = c"
  by (auto simp: inject_action_def split: option.splits)

lemma inject_action_params:
  "action = Some f \<Longrightarrow> cellRenderer c \<noteq> None \<Longrightarrow> truthy (cellRendererParams c) \<Longrightarrow>
   cellRendererParams (inject_action action c) =
     Obj (assign (assign [] (own_entries (cellRendererParams c))) [(''onAction'', Fun f)])"
  by (simp add: inject_action_def)

text \<open>
  C3, as the code has it. After hydration the input holds as many columns as before, and each
  keeps its \<^verbatim>\<open>cellRenderer\<close>, its \<^verbatim>\<open>valueFormatter\<close> and its other keys. A column is
  unchanged altogether when no action callback is given, when it has no \<^verbatim>\<open>cellRenderer\<close>
  key, or when its \<^verbatim>\<open>cellRendererParams\<close> is falsy. Otherwise the
  \<^verbatim>\<open>cellRendererParams\<close> of the input column is replaced by a copy of it that carries the
  callback under \<^verbatim>\<open>onAction\<close>.
\<close>

theorem hydration_input_columns:
  "length (fst (fromSerializedToColumnDef compile serialized action)) = length serialized \<and>
   (\<forall>i<length serialized.
      cellRenderer (fst (fromSerializedToColumnDef compile serialized action) ! i) =
        cellRenderer (serialized ! i) \<and>
      valueFormatter (fst (fromSerializedToColumnDef compile serialized action) ! i) =
        valueFormatter (serialized ! i) \<and>
      rest (fst (fromSerializedToColumnDef compile serialized action) ! i) =
        rest (serialized ! i) \<and>
      (action = None \<or> cellRenderer (serialized ! i) = None \<or>
       \<not> truthy (cellRendererParams (serialized ! i)) \<longrightarrow>
         fst (fromSerializedToColumnDef compile serialized action) ! i = serialized ! i) \<and>
      (\<forall>f. action = Some f \<and> cellRenderer (serialized ! i) \<noteq> None \<and>
           truthy (cellRendererParams (serialized ! i)) \<longrightarrow>
         cellRendererParams (fst (fromSerializedToColumnDef compile serialized action) ! i) =
           Obj (assign (assign [] (own_entries (cellRendererParams (serialized ! i))))
                       [(''onAction'', Fun f)]))) \<and>
   (action = None \<longrightarrow> fst (fromSerializedToColumnDef compile serialized action) = serialized)"
proof -
  have after: "fst (fromSerializedToColumnDef compile serialized action) =
               map (inject_action action) serialized"
    by (simp add: fromSerializedToColumnDef_def hydrate_column_input)
  have none: "map (inject_action None) serialized = serialized"
    by (simp add: inject_action_unchanged map_idI)
  show ?thesis
    unfolding after
    using none
    by (auto simp: inject_action_fields inject_action_unchanged inject_action_params)
qed

theorem hydration_input_columns_witness:
  "fst (fromSerializedToColumnDef sample_compile
         [\<lparr>cellRenderer = None, cellRendererParams = Undefined,
           valueFormatter = Some [''value''], rest = [(''field'', Str ''name'')]\<rparr>,
          \<lparr>cellRenderer = Some (Str ''menu''), cellRendererParams = Obj [(''items'', Arr [Str ''edit''])],
           valueFormatter = None, rest = [(''field'', Str ''id'')]\<rparr>] (Some 7)) ! 0 =
     \<lparr>cellRenderer = None, cellRendererParams = Undefined,
      valueFormatter = Some [''value''], rest = [(''field'', Str ''name'')]\<rparr> \<and>
   cellRendererParams (fst (fromSerializedToColumnDef sample_compile
         [\<lparr>cellRenderer = None, cellRendererParams = Undefined,
           valueFormatter = Some [''value''], rest = [(''field'', Str ''name'')]\<rparr>,
          \<lparr>cellRenderer = Some (Str ''menu''), cellRendererParams = Obj [(''items'', Arr [Str ''edit''])],
           valueFormatter = None, rest = [(''field'', Str ''id'')]\<rparr>] (Some 7)) ! 1) =
     Obj [(''items'', Arr [Str ''edit'']), (''onAction'', Fun 7)]"
proof -
  let ?cs = "[\<lparr>cellRenderer = None, cellRendererParams = Undefined,
           valueFormatter = Some [''value''], rest = [(''field'', Str ''name'')]\<rparr>,
          \<lparr>cellRenderer = Some (Str ''menu''), cellRendererParams = Obj [(''items'', Arr [Str ''edit''])],
           valueFormatter = None, rest = [(''field'', Str ''id'')]\<rparr>]"
  note columns = hydration_input_columns [of sample_compile ?cs "Some 7",
      THEN conjunct2, THEN conjunct1, rule_format]
  have "(0::nat) < length ?cs" and "(1::nat) < length ?cs" by simp_all
  then show ?thesis
    using columns [of 0] columns [of 1] by (simp add: assign_def)
qed

text \<open>
  C3 as stated fails: hydrating a column that has a renderer and renderer parameters with an
  action callback changes the \<^verbatim>\<open>cellRendererParams\<close> of the input column.
\<close>

theorem hydration_mutates_input_counterexample:
  "fst (fromSerializedToColumnDef sample_compile
         [\<lparr>cellRenderer = Some (Str ''menu''), cellRendererParams = Obj [(''items'', Arr [Str ''edit''])],
           valueFormatter = None, rest = [(''field'', Str ''id'')]\<rparr>] (Some 7)) =
     [\<lparr>cellRenderer = Some (Str ''menu''),
       cellRendererParams = Obj [(''items'', Arr [Str ''edit'']), (''onAction'', Fun 7)],
       valueFormatter = None, rest = [(''field'', Str ''id'')]\<rparr>] \<and>
   fst (fromSerializedToColumnDef sample_compile
         [\<lparr>cellRenderer = Some (Str ''menu''), cellRendererParams = Obj [(''items'', Arr [Str ''edit''])],
           valueFormatter = None, rest = [(''field'', Str ''id'')]\<rparr>] (Some 7)) \<noteq>
     [\<lparr>cellRenderer = Some (Str ''menu''), cellRendererParams = Obj [(''items'', Arr [Str ''edit''])],
       valueFormatter = None, rest = [(''field'', Str ''id'')]\<rparr>]"
  by (simp add: fromSerializedToColumnDef_def hydrate_column_def inject_action_def assign_def Let_def)

section \<open>The row-request translator\<close>

lemma filter_entry_key: "map fst (map filter_entry fm) = map fst fm"
  by (induction fm) (auto simp: filter_entry_def Let_def)

text \<open>
  C5: a filter entry of type \<^verbatim>\<open>contains\<close> becomes \<^verbatim>\<open>$iLike\<close> on the filter text
  between two \<^verbatim>\<open>%\<close>, one of type \<^verbatim>\<open>notContains\<close> becomes \<^verbatim>\<open>$notILike\<close> likewise,
  and any other type becomes the filter text itself; for the key \<^verbatim>\<open>id\<close> the result is
  the filter text itself whatever the type.
\<close>

theorem parseSort_filter_operator:
  assumes "filterModel (request ps) = Some fm"
    and "distinct (map fst fm)"
    and "(key, val) \<in> set fm"
  shows "map_of (filter_obj (parseSort ps)) key =
     Some (if key = ''id'' then Str (filter_str val)
           else if type val = ''contains''
             then Obj [(''$iLike'', Str (''%'' @ filter_str val @ ''%''))]
           else if type val = ''notContains''
             then Obj [(''$notILike'', Str (''%'' @ filter_str val @ ''%''))]
           else Str (filter_str val))"
proof -
  have d: "distinct (map fst (map filter_entry fm))"
    using assms(2) by (simp only: filter_entry_key)
  have "filter_entry (key, val) \<in> set (map filter_entry fm)"
    using assms(3) by auto
  moreover have "filter_entry (key, val) = (key, snd (filter_entry (key, val)))"
    by (simp add: filter_entry_def Let_def)
  ultimately have "map_of (map filter_entry fm) key = Some (snd (filter_entry (key, val)))"
    using d by (metis map_of_is_SomeI)
  then have "map_of (filter_obj (parseSort ps)) key = Some (snd (filter_entry (key, val)))"
    using assms(1) d by (simp add: parseSort_def Let_def fromEntries_def map_of_assign_distinct)
  then show ?thesis
    by (simp add: filter_entry_def Let_def)
qed

theorem parseSort_filter_operator_witness:
  "map_of (filter_obj (parseSort \<lparr>request = \<lparr>startRow = Some 0, endRow = Some 50,
      filterModel = Some [(''name'', \<lparr>type = ''contains'', filter_str = ''ann''\<rparr>),
                          (''id'', \<lparr>type = ''contains'', filter_str = ''ann''\<rparr>)],
      sortModel = Some []\<rparr>\<rparr>)) ''name'' = Some (Obj [(''$iLike'', Str ''%ann%'')]) \<and>
   map_of (filter_obj (parseSort \<lparr>request = \<lparr>startRow = Some 0, endRow = Some 50,
      filterModel = Some [(''name'', \<lparr>type = ''contains'', filter_str = ''ann''\<rparr>),
                          (''id'', \<lparr>type = ''contains'', filter_str = ''ann''\<rparr>)],
      sortModel = Some []\<rparr>\<rparr>)) ''id'' = Some (Str ''ann'')"
  using parseSort_filter_operator
      [of "\<lparr>request = \<lparr>startRow = Some 0, endRow = Some 50,
            filterModel = Some [(''name'', \<lparr>type = ''contains'', filter_str = ''ann''\<rparr>),
                                (''id'', \<lparr>type = ''contains'', filter_str = ''ann''\<rparr>)],
            sortModel = Some []\<rparr>\<rparr>"
          "[(''name'', \<lparr>type = ''contains'', filter_str = ''ann''\<rparr>),
            (''id'', \<lparr>type = ''contains'', filter_str = ''ann''\<rparr>)]"
          "''name''" "\<lparr>type = ''contains'', filter_str = ''ann''\<rparr>"]
    parseSort_filter_operator
      [of "\<lparr>request = \<lparr>startRow = Some 0, endRow = Some 50,
            filterModel = Some [(''name'', \<lparr>type = ''contains'', filter_str = ''ann''\<rparr>),
                                (''id'', \<lparr>type = ''contains'', filter_str = ''ann''\<rparr>)],
            sortModel = Some []\<rparr>\<rparr>"
          "[(''name'', \<lparr>type = ''contains'', filter_str = ''ann''\<rparr>),
            (''id'', \<lparr>type = ''contains'', filter_str = ''ann''\<rparr>)]"
          "''id''" "\<lparr>type = ''contains'', filter_str = ''ann''\<rparr>"]
  by simp

lemma order_by_dotted:
  assumes "CHR ''.'' \<in> set (colId s)"
  shows "order_by s =
     (let relation = takeWhile (\<lambda>c. c \<noteq> CHR ''.'') (colId s);
          field = takeWhile (\<lambda>c. c \<noteq> CHR ''.'')
                    (drop 1 (dropWhile (\<lambda>c. c \<noteq> CHR ''.'') (colId s)))
      in Arr [Arr [Obj [(''model'', Str (toUpperCase (take 1 relation) @ drop 1 relation)),
                        (''as'', Str relation)],
                   Str field, Str (sort_dir s)]])"
proof -
  obtain m r where mr: "split_on CHR ''.'' (colId s) = (m, r)"
    by (cases "split_on CHR ''.'' (colId s)")
  have m: "m = takeWhile (\<lambda>c. c \<noteq> CHR ''.'') (colId s)"
    using split_on_fst [of "CHR ''.''" "colId s"] mr by simp
  have r: "r = fst (split_on CHR ''.'' (drop 1 (dropWhile (\<lambda>c. c \<noteq> CHR ''.'') (colId s)))) #
               snd (split_on CHR ''.'' (drop 1 (dropWhile (\<lambda>c. c \<noteq> CHR ''.'') (colId s))))"
    using split_on_snd [OF assms] mr by simp
  show ?thesis
    using assms by (simp add: order_by_def mr Let_def m [symmetric]) (simp add: r split_on_fst)
qed

lemma order_by_flat:
  "CHR ''.'' \<notin> set (colId s) \<Longrightarrow> order_by s = Arr [Arr [Str (colId s), Str (sort_dir s)]]"
  by (simp add: order_by_def Let_def)

lemma order_by_at_most_one_dot:
  assumes c: "count_list (colId s) CHR ''.'' \<le> 1"
  shows "order_by s = order_by_first_dot s"
proof (cases "CHR ''.'' \<in> set (colId s)")
  case True
  have "count_list (drop 1 (dropWhile (\<lambda>c. c \<noteq> CHR ''.'') (colId s))) CHR ''.'' = 0"
    using count_after_first [OF True] c by linarith
  then have "CHR ''.'' \<notin> set (drop 1 (dropWhile (\<lambda>c. c \<noteq> CHR ''.'') (colId s)))"
    by (rule count_list_0_iff [THEN iffD1])
  then have tw: "takeWhile (\<lambda>c. c \<noteq> CHR ''.'')
               (drop 1 (dropWhile (\<lambda>c. c \<noteq> CHR ''.'') (colId s))) =
             drop 1 (dropWhile (\<lambda>c. c \<noteq> CHR ''.'') (colId s))"
    by (rule no_dot_takeWhile)
  have "order_by_first_dot s =
      Arr [Arr [Obj [(''model'', Str (toUpperCase (take 1 (takeWhile (\<lambda>c. c \<noteq> CHR ''.'') (colId s))) @
                                     drop 1 (takeWhile (\<lambda>c. c \<noteq> CHR ''.'') (colId s)))),
                     (''as'', Str (takeWhile (\<lambda>c. c \<noteq> CHR ''.'') (colId s)))],
                Str (drop 1 (dropWhile (\<lambda>c. c \<noteq> CHR ''.'') (colId s))), Str (sort_dir s)]]"
    using True unfolding order_by_first_dot_def split_first_dot_def Let_def by simp
  moreover have "order_by s =
      Arr [Arr [Obj [(''model'', Str (toUpperCase (take 1 (takeWhile (\<lambda>c. c \<noteq> CHR ''.'') (colId s))) @
                                     drop 1 (takeWhile (\<lambda>c. c \<noteq> CHR ''.'') (colId s)))),
                     (''as'', Str (takeWhile (\<lambda>c. c \<noteq> CHR ''.'') (colId s)))],
                Str (takeWhile (\<lambda>c. c \<noteq> CHR ''.'')
               (drop 1 (dropWhile (\<lambda>c. c \<noteq> CHR ''.'') (colId s)))), Str (sort_dir s)]]"
    using order_by_dotted [OF True] unfolding Let_def .
  ultimately show ?thesis by (simp only: tw)
next
  case False
  then show ?thesis by (simp add: order_by_flat order_by_first_dot_def)
qed

text \<open>
  C6, as the code has it. For a first sort entry whose column id holds a dot, the id is split
  on every dot: the first segment is the relation name, the second segment is the field
  name, and the order-by is the single entry of the model descriptor (the relation name with
  its first character in upper case, and the relation name), the field name and the
  direction. An id without a dot gives the flat entry of the id and the direction. When the
  id holds at most one dot this is the split on the first dot.
\<close>

theorem parseSort_order_by_segments:
  assumes "sortModel (request ps) = Some (s # others)"
  shows "(CHR ''.'' \<in> set (colId s) \<longrightarrow>
            orderBy (parseSort ps) =
              (let relation = takeWhile (\<lambda>c. c \<noteq> CHR ''.'') (colId s);
                   field = takeWhile (\<lambda>c. c \<noteq> CHR ''.'')
                             (drop 1 (dropWhile (\<lambda>c. c \<noteq> CHR ''.'') (colId s)))
               in Arr [Arr [Obj [(''model'', Str (toUpperCase (take 1 relation) @ drop 1 relation)),
                                 (''as'', Str relation)],
                            Str field, Str (sort_dir s)]])) \<and>
         (CHR ''.'' \<notin> set (colId s) \<longrightarrow>
            orderBy (parseSort ps) = Arr [Arr [Str (colId s), Str (sort_dir s)]]) \<and>
         (count_list (colId s) CHR ''.'' \<le> 1 \<longrightarrow>
            orderBy (parseSort ps) = order_by_first_dot s)"
proof -
  have ob: "orderBy (parseSort ps) = order_by s"
    using assms by (simp add: parseSort_def Let_def)
  show ?thesis
    unfolding ob
    by (intro conjI impI order_by_dotted order_by_flat order_by_at_most_one_dot)
qed

theorem parseSort_order_by_segments_witness:
  "orderBy (parseSort \<lparr>request = \<lparr>startRow = Some 0, endRow = Some 50, filterModel = None,
      sortModel = Some [\<lparr>colId = ''account.name'', sort_dir = ''asc''\<rparr>]\<rparr>\<rparr>) =
     Arr [Arr [Obj [(''model'', Str ''Account''), (''as'', Str ''account'')],
               Str ''name'', Str ''asc'']] \<and>
   orderBy (parseSort \<lparr>request = \<lparr>startRow = Some 0, endRow = Some 50, filterModel = None,
      sortModel = Some [\<lparr>colId = ''name'', sort_dir = ''desc''\<rparr>]\<rparr>\<rparr>) =
     Arr [Arr [Str ''name'', Str ''desc'']]"
  using parseSort_order_by_segments
      [of "\<lparr>request = \<lparr>startRow = Some 0, endRow = Some 50, filterModel = None,
             sortModel = Some [\<lparr>colId = ''account.name'', sort_dir = ''asc''\<rparr>]\<rparr>\<rparr>"
          "\<lparr>colId = ''account.name'', sort_dir = ''asc''\<rparr>" "[]"]
    parseSort_order_by_segments
      [of "\<lparr>request = \<lparr>startRow = Some 0, endRow = Some 50, filterModel = None,
             sortModel = Some [\<lparr>colId = ''name'', sort_dir = ''desc''\<rparr>]\<rparr>\<rparr>"
          "\<lparr>colId = ''name'', sort_dir = ''desc''\<rparr>" "[]"]
  by (simp add: toUpperCase_def toUpperCase_char_def)

text \<open>
  C6 as stated fails on an id with two dots: the code takes the segment between the first
  and the second dot as the field name, the split on the first dot takes all that follows
  the first dot.
\<close>

theorem parseSort_order_by_first_dot_counterexample:
  "orderBy (parseSort \<lparr>request = \<lparr>startRow = Some 0, endRow = Some 50, filterModel = None,
      sortModel = Some [\<lparr>colId = ''account.owner.name'', sort_dir = ''asc''\<rparr>]\<rparr>\<rparr>) =
     Arr [Arr [Obj [(''model'', Str ''Account''), (''as'', Str ''account'')],
               Str ''owner'', Str ''asc'']] \<and>
   order_by_first_dot \<lparr>colId = ''account.owner.name'', sort_dir = ''asc''\<rparr> =
     Arr [Arr [Obj [(''model'', Str ''Account''), (''as'', Str ''account'')],
               Str ''owner.name'', Str ''asc'']] \<and>
   orderBy (parseSort \<lparr>request = \<lparr>startRow = Some 0, endRow = Some 50, filterModel = None,
      sortModel = Some [\<lparr>colId = ''account.owner.name'', sort_dir = ''asc''\<rparr>]\<rparr>\<rparr>) \<noteq>
     order_by_first_dot \<lparr>colId = ''account.owner.name'', sort_dir = ''asc''\<rparr>"
  by (simp add: parseSort_def order_by_def order_by_first_dot_def split_first_dot_def
      Let_def toUpperCase_def toUpperCase_char_def)

text \<open>
  C7: the offset is \<^verbatim>\<open>startRow\<close> and the limit is \<^verbatim>\<open>endRow - startRow\<close>, each of the
  two rows read as 0 when it is absent; a request without sort entries is ordered by
  \<^verbatim>\<open>createdAt\<close>, descending; and the request of rows 10 to 30 with no sort and no filter
  gives offset 10, limit 20, that order and the empty filter.
\<close>

theorem parseSort_paging_and_default_sort:
  "offset (parseSort ps) = (case startRow (request ps) of None \<Rightarrow> 0 | Some n \<Rightarrow> n) \<and>
   limit (parseSort ps) =
     (case endRow (request ps) of None \<Rightarrow> 0 | Some n \<Rightarrow> n) -
     (case startRow (request ps) of None \<Rightarrow> 0 | Some n \<Rightarrow> n) \<and>
   (sortModel (request ps) = None \<or> sortModel (request ps) = Some [] \<longrightarrow>
      orderBy (parseSort ps) = Arr [Arr [Str ''createdAt'', Str ''desc'']]) \<and>
   parseSort \<lparr>request = \<lparr>startRow = Some 10, endRow = Some 30,
                          filterModel = Some [], sortModel = Some []\<rparr>\<rparr> =
     \<lparr>filter_obj = [], limit = 20, offset = 10,
      orderBy = Arr [Arr [Str ''createdAt'', Str ''desc'']]\<rparr>"
  by (auto simp: parseSort_def order_by_def fromEntries_def assign_def Let_def)

theorem parseSort_paging_and_default_sort_witness:
  "sortModel (request \<lparr>request = \<lparr>startRow = None, endRow = None,
                                  filterModel = None, sortModel = None\<rparr>\<rparr>) = None \<and>
   orderBy (parseSort \<lparr>request = \<lparr>startRow = None, endRow = None,
                                   filterModel = None, sortModel = None\<rparr>\<rparr>) =
     Arr [Arr [Str ''createdAt'', Str ''desc'']] \<and>
   limit (parseSort \<lparr>request = \<lparr>startRow = None, endRow = None,
                                 filterModel = None, sortModel = None\<rparr>\<rparr>) = 0"
  using parseSort_paging_and_default_sort
    [of "\<lparr>request = \<lparr>startRow = None, endRow = None, filterModel = None, sortModel = None\<rparr>\<rparr>"]
  by simp

text \<open>
  C10: of a sort model with one entry or more, the order-by is built from the first entry:
  from its column id and its direction, as the flat entry when the id has no dot and as the
  structured entry of its first two segments when it has one. No later entry is read: the
  whole translated request is the one of the sort model cut down to its first entry.
\<close>

theorem parseSort_uses_first_sort_entry:
  assumes "sortModel (request ps) = Some (s # others)"
  shows "orderBy (parseSort ps) =
           (if CHR ''.'' \<in> set (colId s) then
              Arr [Arr [Obj [(''model'',
                              Str (toUpperCase (take 1 (takeWhile (\<lambda>c. c \<noteq> CHR ''.'') (colId s))) @
                                   drop 1 (takeWhile (\<lambda>c. c \<noteq> CHR ''.'') (colId s)))),
                             (''as'', Str (takeWhile (\<lambda>c. c \<noteq> CHR ''.'') (colId s)))],
                        Str (takeWhile (\<lambda>c. c \<noteq> CHR ''.'')
                               (drop 1 (dropWhile (\<lambda>c. c \<noteq> CHR ''.'') (colId s)))),
                        Str (sort_dir s)]]
            else Arr [Arr [Str (colId s), Str (sort_dir s)]]) \<and>
         parseSort ps = parseSort (ps\<lparr>request := (request ps)\<lparr>sortModel := Some [s]\<rparr>\<rparr>)"
proof
  have ob: "orderBy (parseSort ps) = order_by s"
    using assms by (simp add: parseSort_def Let_def)
  show "orderBy (parseSort ps) =
           (if CHR ''.'' \<in> set (colId s) then
              Arr [Arr [Obj [(''model'',
                              Str (toUpperCase (take 1 (takeWhile (\<lambda>c. c \<noteq> CHR ''.'') (colId s))) @
                                   drop 1 (takeWhile (\<lambda>c. c \<noteq> CHR ''.'') (colId s)))),
                             (''as'', Str (takeWhile (\<lambda>c. c \<noteq> CHR ''.'') (colId s)))],
                        Str (takeWhile (\<lambda>c. c \<noteq> CHR ''.'')
                               (drop 1 (dropWhile (\<lambda>c. c \<noteq> CHR ''.'') (colId s)))),
                        Str (sort_dir s)]]
            else Arr [Arr [Str (colId s), Str (sort_dir s)]])"
  proof (cases "CHR ''.'' \<in> set (colId s)")
    case True
    show ?thesis
      unfolding ob using order_by_dotted [OF True] True by (simp only: Let_def if_True)
  next
    case False
    show ?thesis
      unfolding ob using order_by_flat [OF False] False by (simp only: if_False)
  qed
next
  show "parseSort ps = parseSort (ps\<lparr>request := (request ps)\<lparr>sortModel := Some [s]\<rparr>\<rparr>)"
    using assms by (simp add: parseSort_def Let_def)
qed

theorem parseSort_uses_first_sort_entry_witness:
  "orderBy (parseSort \<lparr>request = \<lparr>startRow = Some 0, endRow = Some 50, filterModel = None,
      sortModel = Some [\<lparr>colId = ''name'', sort_dir = ''asc''\<rparr>,
                        \<lparr>colId = ''age'', sort_dir = ''desc''\<rparr>]\<rparr>\<rparr>) =
     Arr [Arr [Str ''name'', Str ''asc'']] \<and>
   parseSort \<lparr>request = \<lparr>startRow = Some 0, endRow = Some 50, filterModel = None,
      sortModel = Some [\<lparr>colId = ''name'', sort_dir = ''asc''\<rparr>,
                        \<lparr>colId = ''age'', sort_dir = ''desc''\<rparr>]\<rparr>\<rparr> =
   parseSort \<lparr>request = \<lparr>startRow = Some 0, endRow = Some 50, filterModel = None,
      sortModel = Some [\<lparr>colId = ''name'', sort_dir = ''asc''\<rparr>]\<rparr>\<rparr>"
  using parseSort_uses_first_sort_entry
    [of "\<lparr>request = \<lparr>startRow = Some 0, endRow = Some 50, filterModel = None,
           sortModel = Some [\<lparr>colId = ''name'', sort_dir = ''asc''\<rparr>,
                             \<lparr>colId = ''age'', sort_dir = ''desc''\<rparr>]\<rparr>\<rparr>"
        "\<lparr>colId = ''name'', sort_dir = ''asc''\<rparr>" "[\<lparr>colId = ''age'', sort_dir = ''desc''\<rparr>]"]
  by (simp add: parseSort_def order_by_def Let_def)





section \<open>The date filter\<close>

lemma formatDate_default_pattern:
  "formatDate d ''MM/DD/YYYY hh:mm:ss A'' =
     pad (getMonth d + 1) @ ''/'' @ pad (getDate d) @ ''/'' @ toString (getFullYear d) @ '' '' @
     pad (if getHours d mod 12 = 0 then 12 else getHours d mod 12) @ '':'' @
     pad (getMinutes d) @ '':'' @ pad (getSeconds d) @ '' '' @
     (if getHours d \<ge> 12 then ''PM'' else ''AM'')"
proof -
  define Y where "Y = toString (getFullYear d)"
  define M where "M = pad (getMonth d + 1)"
  define D where "D = pad (getDate d)"
  define h where "h = pad (if getHours d mod 12 = 0 then 12 else getHours d mod 12)"
  define H where "H = pad (getHours d)"
  define mi where "mi = pad (getMinutes d)"
  define s where "s = pad (getSeconds d)"
  define A where "A = (if getHours d \<ge> 12 then ''PM'' else ''AM'')"
  have num: "\<forall>c\<in>set Y. numeral_char c" "\<forall>c\<in>set M. numeral_char c"
    "\<forall>c\<in>set D. numeral_char c" "\<forall>c\<in>set h. numeral_char c"
    "\<forall>c\<in>set mi. numeral_char c" "\<forall>c\<in>set s. numeral_char c"
    unfolding Y_def M_def D_def h_def mi_def s_def
    by (rule numeral_toString numeral_pad)+
  have letters: "\<not> numeral_char CHR ''D''" "\<not> numeral_char CHR ''h''" "\<not> numeral_char CHR ''H''"
    "\<not> numeral_char CHR ''m''" "\<not> numeral_char CHR ''s''" "\<not> numeral_char CHR ''A''"
    by (simp_all add: numeral_char_def)
  have s1: "replace ''YYYY'' Y ''MM/DD/YYYY hh:mm:ss A'' = ''MM/DD/'' @ Y @ '' hh:mm:ss A''"
    by simp
  have s2: "replace ''MM'' M (''MM/DD/'' @ Y @ '' hh:mm:ss A'') = M @ ''/DD/'' @ Y @ '' hh:mm:ss A''"
    by simp
  have s3: "replace ''DD'' D (M @ ''/DD/'' @ Y @ '' hh:mm:ss A'') =
            M @ ''/'' @ D @ ''/'' @ Y @ '' hh:mm:ss A''"
    by (simp add: replace_skip letters num)
  have s4: "replace ''hh'' h (M @ ''/'' @ D @ ''/'' @ Y @ '' hh:mm:ss A'') =
            M @ ''/'' @ D @ ''/'' @ Y @ '' '' @ h @ '':mm:ss A''"
    by (simp add: replace_skip letters num)
  have s5: "replace ''HH'' H (M @ ''/'' @ D @ ''/'' @ Y @ '' '' @ h @ '':mm:ss A'') =
            M @ ''/'' @ D @ ''/'' @ Y @ '' '' @ h @ '':mm:ss A''"
    by (simp add: replace_skip letters num)
  have s6: "replace ''mm'' mi (M @ ''/'' @ D @ ''/'' @ Y @ '' '' @ h @ '':mm:ss A'') =
            M @ ''/'' @ D @ ''/'' @ Y @ '' '' @ h @ '':'' @ mi @ '':ss A''"
    by (simp add: replace_skip letters num)
  have s7: "replace ''ss'' s (M @ ''/'' @ D @ ''/'' @ Y @ '' '' @ h @ '':'' @ mi @ '':ss A'') =
            M @ ''/'' @ D @ ''/'' @ Y @ '' '' @ h @ '':'' @ mi @ '':'' @ s @ '' A''"
    by (simp add: replace_skip letters num)
  have s8: "replace ''A'' A (M @ ''/'' @ D @ ''/'' @ Y @ '' '' @ h @ '':'' @ mi @ '':'' @ s @ '' A'') =
            M @ ''/'' @ D @ ''/'' @ Y @ '' '' @ h @ '':'' @ mi @ '':'' @ s @ '' '' @ A"
    by (simp add: replace_skip letters num)
  have "formatDate d ''MM/DD/YYYY hh:mm:ss A'' =
      replace ''A'' A (replace ''ss'' s (replace ''mm'' mi (replace ''HH'' H (replace ''hh'' h
        (replace ''DD'' D (replace ''MM'' M (replace ''YYYY'' Y ''MM/DD/YYYY hh:mm:ss A'')))))))"
    unfolding formatDate_def Let_def Y_def M_def D_def h_def H_def mi_def s_def A_def ..
  also have "\<dots> = M @ ''/'' @ D @ ''/'' @ Y @ '' '' @ h @ '':'' @ mi @ '':'' @ s @ '' '' @ A"
    by (simp only: s1 s2 s3 s4 s5 s6 s7 s8)
  finally show ?thesis
    unfolding Y_def M_def D_def h_def mi_def s_def A_def .
qed

text \<open>
  C8: without a pattern, a non-empty string that parses as a date is rendered as month, day,
  year, 12-hour hour, minutes, seconds and \<^verbatim>\<open>AM\<close> or \<^verbatim>\<open>PM\<close> in the layout
  \<^verbatim>\<open>MM/DD/YYYY hh:mm:ss A\<close>, a padded number below 100 taking two digits; a string
  that does not parse is returned as it is; the empty string gives the empty string.
\<close>

theorem filters_date_default_pattern:
  "(s \<noteq> [] \<and> newDate s = Some d \<longrightarrow>
      filters_date newDate (Str s) None =
        Str (pad (getMonth d + 1) @ ''/'' @ pad (getDate d) @ ''/'' @
             toString (getFullYear d) @ '' '' @
             pad (if getHours d mod 12 = 0 then 12 else getHours d mod 12) @ '':'' @
             pad (getMinutes d) @ '':'' @ pad (getSeconds d) @ '' '' @
             (if getHours d \<ge> 12 then ''PM'' else ''AM''))) \<and>
   (\<forall>n<100. length (pad n) = 2) \<and>
   (newDate s = None \<longrightarrow> filters_date newDate (Str s) None = Str s) \<and>
   filters_date newDate (Str []) None = Str []"
proof (intro conjI impI allI)
  assume "s \<noteq> [] \<and> newDate s = Some d"
  then have "filters_date newDate (Str s) None = Str (formatDate d ''MM/DD/YYYY hh:mm:ss A'')"
    by (simp add: filters_date_def)
  then show "filters_date newDate (Str s) None =
        Str (pad (getMonth d + 1) @ ''/'' @ pad (getDate d) @ ''/'' @
             toString (getFullYear d) @ '' '' @
             pad (if getHours d mod 12 = 0 then 12 else getHours d mod 12) @ '':'' @
             pad (getMinutes d) @ '':'' @ pad (getSeconds d) @ '' '' @
             (if getHours d \<ge> 12 then ''PM'' else ''AM''))"
    by (simp only: formatDate_default_pattern)
next
  fix n :: nat
  assume "n < 100"
  then show "length (pad n) = 2" by (rule pad_length)
next
  assume "newDate s = None"
  then show "filters_date newDate (Str s) None = Str s"
    by (simp add: filters_date_def)
next
  show "filters_date newDate (Str []) None = Str []"
    by (simp add: filters_date_def)
qed

theorem filters_date_default_pattern_witness:
  "filters_date
     (\<lambda>s. if s = ''2024-03-05T15:04:09'' then
             Some \<lparr>getFullYear = 2024, getMonth = 2, getDate = 5,
                   getHours = 15, getMinutes = 4, getSeconds = 9\<rparr>
           else None)
     (Str ''2024-03-05T15:04:09'') None = Str ''03/05/2024 03:04:09 PM'' \<and>
   filters_date
     (\<lambda>s. if s = ''2024-03-05T15:04:09'' then
             Some \<lparr>getFullYear = 2024, getMonth = 2, getDate = 5,
                   getHours = 15, getMinutes = 4, getSeconds = 9\<rparr>
           else None)
     (Str ''not a date'') None = Str ''not a date'' \<and>
   length (pad 3) = 2"
proof -
  let ?newDate = "\<lambda>s. if s = ''2024-03-05T15:04:09'' then
             Some \<lparr>getFullYear = 2024, getMonth = 2, getDate = 5,
                   getHours = 15, getMinutes = 4, getSeconds = 9\<rparr>
           else None"
  have numerals: "toString 2024 = ''2024''" "pad 3 = ''03''" "pad 5 = ''05''"
    "pad 4 = ''04''" "pad 9 = ''09''"
    by (simp_all add: pad_def padStart_def toString_def toString_nat.simps digit_char_def)
  show ?thesis
    using filters_date_default_pattern
        [of "''2024-03-05T15:04:09''" ?newDate
            "\<lparr>getFullYear = 2024, getMonth = 2, getDate = 5,
              getHours = 15, getMinutes = 4, getSeconds = 9\<rparr>"]
      filters_date_default_pattern
        [of "''not a date''" ?newDate
            "\<lparr>getFullYear = 2024, getMonth = 2, getDate = 5,
              getHours = 15, getMinutes = 4, getSeconds = 9\<rparr>"]
    by (simp add: numerals)
qed

end
